theory Spec2Isabelle
  imports Complex_Main
begin

section \<open>The photosynthesis simulation of \<^verbatim>\<open>script.js\<close>\<close>

text \<open>
  The simulation engine of \<^verbatim>\<open>src/Photosynthesis/script.js\<close> is the global object
  \<^verbatim>\<open>state\<close> and the three functions \<^verbatim>\<open>calculateEnvironment\<close>,
  \<^verbatim>\<open>calculateRate\<close> and \<^verbatim>\<open>updateSimulation\<close> that mutate it once per frame,
  together with the slider and button handlers that write to it.

  JavaScript numbers are modelled as the real numbers: \<open>+\<close>, \<open>*\<close>, \<open>/\<close>, \<^verbatim>\<open>Math.exp\<close>
  and p5's \<^verbatim>\<open>sin\<close> are the exact operations and p5's \<^verbatim>\<open>PI\<close> is \<open>\<pi>\<close>, so the rounding of
  IEEE doubles is not part of these definitions. Two properties depend on the exact
  value that the sine returns at \<^verbatim>\<open>PI\<close> and the exponential near \<open>0\<close>; for them the
  library functions are parameters, instantiated with their values on doubles.
  A division by zero, which gives an infinity or
  NaN in JavaScript and \<open>0\<close> in HOL, happens in the source only when \<^verbatim>\<open>state.light\<close> or
  \<^verbatim>\<open>state.co2\<close> is \<open>-20\<close>; statements about the scores exclude those two values.
  The mutation of the global object is explicit state passing.
\<close>

subsection \<open>State and constants\<close>

record sim_state =
  time :: real
  day :: int
  autoPlay :: bool
  light :: real
  co2 :: real
  temp :: real
  growthRate :: real
  biomass :: real
  limitingFactor :: string

text \<open>The object literal \<^verbatim>\<open>const state = {...}\<close>: the state before the first frame.\<close>

definition state_init :: sim_state where
  "state_init =
     \<lparr>time = 12, day = 1, autoPlay = True, light = 100, co2 = 40, temp = 25,
      growthRate = 0, biomass = 15, limitingFactor = ''None''\<rparr>"

definition OPTIMAL_TEMP :: real where
  "OPTIMAL_TEMP = 25"

definition MAX_BIOMASS :: real where
  "MAX_BIOMASS = 200"

subsection \<open>The p5 helpers the source calls\<close>

text \<open>
  p5's \<^verbatim>\<open>map(n, start1, stop1, start2, stop2)\<close> without bounds: the linear map that
  sends \<open>start1\<close> to \<open>start2\<close> and \<open>stop1\<close> to \<open>stop2\<close>. The source calls it with
  constant, distinct \<open>start1\<close> and \<open>stop1\<close> only.
\<close>

definition map_p5 :: "real \<Rightarrow> real \<Rightarrow> real \<Rightarrow> real \<Rightarrow> real \<Rightarrow> real" where
  "map_p5 n start1 stop1 start2 stop2 =
     (n - start1) / (stop1 - start1) * (stop2 - start2) + start2"

definition PI :: real where
  "PI = pi"

definition TWO_PI :: real where
  "TWO_PI = 2 * pi"

subsection \<open>\<^verbatim>\<open>calculateEnvironment\<close>\<close>

text \<open>
  Lines 62 to 95. The locals \<^verbatim>\<open>tempOffset\<close> and \<^verbatim>\<open>tempT\<close> are computed and never
  read, so they are left out. The statements are kept in the source's order: clock,
  light, temperature, clamp of the light.
\<close>

definition calculateEnvironment :: "sim_state \<Rightarrow> sim_state" where
  "calculateEnvironment s =
     (if autoPlay s then
        let s1 = s\<lparr>time := time s + 0.02\<rparr>;
            s2 = (if time s1 \<ge> 24 then s1\<lparr>time := 0, day := day s1 + 1\<rparr> else s1);
            s3 = (if time s2 \<ge> 6 \<and> time s2 \<le> 18
                  then s2\<lparr>light := sin (map_p5 (time s2) 6 18 0 PI) * 100\<rparr>
                  else s2\<lparr>light := 0\<rparr>);
            dailyVar = sin (map_p5 (time s3 - 8) 0 24 0 TWO_PI) * 10;
            s4 = s3\<lparr>temp := 20 + dailyVar\<rparr>
        in (if light s4 < 0 then s4\<lparr>light := 0\<rparr> else s4)
      else s)"

subsection \<open>\<^verbatim>\<open>calculateRate\<close>\<close>

text \<open>
  Lines 97 to 119. The four locals are functions of the state that is read;
  \<^verbatim>\<open>Math.pow(tempDiff, 2)\<close> is the square and \<^verbatim>\<open>Math.min\<close> of three arguments is
  the nested minimum. The function writes \<^verbatim>\<open>growthRate\<close> and \<^verbatim>\<open>limitingFactor\<close>
  and returns the rate; the model returns the rate and the new state.
\<close>

definition lightEffect :: "sim_state \<Rightarrow> real" where
  "lightEffect s = 100 * (light s / (light s + 20))"

definition co2Effect :: "sim_state \<Rightarrow> real" where
  "co2Effect s = 100 * (co2 s / (co2 s + 20))"

definition tempDiff :: "sim_state \<Rightarrow> real" where
  "tempDiff s = \<bar>temp s - OPTIMAL_TEMP\<bar>"

definition tempEffect :: "sim_state \<Rightarrow> real" where
  "tempEffect s =
     (let e = 100 * exp (- ((tempDiff s)\<^sup>2 / 200))
      in if e < 1 then 0 else e)"

definition calculateRate :: "sim_state \<Rightarrow> real \<times> sim_state" where
  "calculateRate s =
     (let rate0 = min (min (lightEffect s) (co2Effect s)) (tempEffect s);
          rate = (if light s < 1 then 0 else rate0);
          s1 = s\<lparr>growthRate := rate\<rparr>;
          s2 = (if rate = lightEffect s then s1\<lparr>limitingFactor := ''light''\<rparr>
                else if rate = co2Effect s then s1\<lparr>limitingFactor := ''co2''\<rparr>
                else s1\<lparr>limitingFactor := ''temp''\<rparr>)
      in (rate, s2))"

subsection \<open>\<^verbatim>\<open>updateSimulation\<close>\<close>

text \<open>
  Lines 121 to 133. \<open>integrateBiomass\<close> is the statement of lines 124 to 126 as a
  function of the biomass read and the rate. The chart update of lines 128 to 132
  writes to the chart's data only and is left out.
\<close>

definition integrateBiomass :: "real \<Rightarrow> real \<Rightarrow> real" where
  "integrateBiomass b rate =
     (if rate > 0 \<and> b < MAX_BIOMASS then b + rate * 0.0005 else b)"

definition updateSimulation :: "sim_state \<Rightarrow> sim_state" where
  "updateSimulation s =
     (let s1 = calculateEnvironment s;
          (rate, s2) = calculateRate s1
      in s2\<lparr>biomass := integrateBiomass (biomass s2) rate\<rparr>)"

subsection \<open>The handlers that write to the state\<close>

text \<open>
  Lines 164 to 186. \<open>handleManualInput\<close> is the listener of the light and the
  temperature slider; it reads all three sliders, whose parsed values
  (\<^verbatim>\<open>parseInt(slider.value)\<close>) are the arguments here. The CO2 slider has a listener
  of its own, \<open>co2Input\<close>, and the pause button flips \<^verbatim>\<open>autoPlay\<close>.
\<close>

definition handleManualInput :: "int \<Rightarrow> int \<Rightarrow> int \<Rightarrow> sim_state \<Rightarrow> sim_state" where
  "handleManualInput l c t s =
     s\<lparr>autoPlay := False, light := of_int l, co2 := of_int c, temp := of_int t\<rparr>"

definition co2Input :: "int \<Rightarrow> sim_state \<Rightarrow> sim_state" where
  "co2Input c s = s\<lparr>co2 := of_int c\<rparr>"

definition pauseClick :: "sim_state \<Rightarrow> sim_state" where
  "pauseClick s = s\<lparr>autoPlay := \<not> autoPlay s\<rparr>"

text \<open>
  What happens to the state over time: a frame of p5's draw loop (a tick) or one of the
  three handlers, in any order.
\<close>

datatype event = Tick | ManualInput int int int | Co2Input int | PauseClick

fun step :: "event \<Rightarrow> sim_state \<Rightarrow> sim_state" where
  "step Tick s = updateSimulation s"
| "step (ManualInput l c t) s = handleManualInput l c t s"
| "step (Co2Input c) s = co2Input c s"
| "step PauseClick s = pauseClick s"

fun run :: "event list \<Rightarrow> sim_state \<Rightarrow> sim_state" where
  "run [] s = s"
| "run (e # es) s = run es (step e s)"

subsection \<open>The library functions as parameters\<close>

text \<open>
  p5's \<^verbatim>\<open>sin\<close> and \<^verbatim>\<open>PI\<close> and JavaScript's \<^verbatim>\<open>Math.exp\<close> are not part of the source.
  Where a property depends on the exact value they return, they are parameters:
  \<open>calculateEnvironment_with sinf p\<close> is \<open>calculateEnvironment\<close> with \<open>sinf\<close> for
  \<^verbatim>\<open>sin\<close>, \<open>p\<close> for \<^verbatim>\<open>PI\<close> and \<open>2 * p\<close> for \<^verbatim>\<open>TWO_PI\<close>, and \<open>tempEffect_with expf\<close>
  is \<open>tempEffect\<close> with \<open>expf\<close> for \<^verbatim>\<open>Math.exp\<close>. With the exact sine, \<open>\<pi>\<close> and the exact
  exponential they are the functions above (\<open>calculateEnvironment_with_exact\<close>,
  \<open>tempEffect_with_exact\<close>).
\<close>

definition calculateEnvironment_with :: "(real \<Rightarrow> real) \<Rightarrow> real \<Rightarrow> sim_state \<Rightarrow> sim_state" where
  "calculateEnvironment_with sinf p s =
     (if autoPlay s then
        let s1 = s\<lparr>time := time s + 0.02\<rparr>;
            s2 = (if time s1 \<ge> 24 then s1\<lparr>time := 0, day := day s1 + 1\<rparr> else s1);
            s3 = (if time s2 \<ge> 6 \<and> time s2 \<le> 18
                  then s2\<lparr>light := sinf (map_p5 (time s2) 6 18 0 p) * 100\<rparr>
                  else s2\<lparr>light := 0\<rparr>);
            dailyVar = sinf (map_p5 (time s3 - 8) 0 24 0 (2 * p)) * 10;
            s4 = s3\<lparr>temp := 20 + dailyVar\<rparr>
        in (if light s4 < 0 then s4\<lparr>light := 0\<rparr> else s4)
      else s)"

definition tempEffect_with :: "(real \<Rightarrow> real) \<Rightarrow> sim_state \<Rightarrow> real" where
  "tempEffect_with expf s =
     (let e = 100 * expf (- ((tempDiff s)\<^sup>2 / 200))
      in if e < 1 then 0 else e)"

text \<open>
  The library as it is on doubles. \<open>PI_double\<close> is the double \<^verbatim>\<open>3.141592653589793\<close>,
  that is \<open>884279719003555 / 2 ^ 48\<close>. \<open>round_double\<close> rounds a real to the nearest
  number with a significand of 53 bits (the exponent range is not limited, and a tie
  goes up); \<open>sin_double\<close> and \<open>exp_double\<close> are the sine and the exponential followed
  by that rounding.
\<close>

definition PI_double :: real where
  "PI_double = 884279719003555 / 281474976710656"

definition round_double :: "real \<Rightarrow> real" where
  "round_double x =
     (if x = 0 then 0
      else let e = \<lfloor>log 2 \<bar>x\<bar>\<rfloor>
           in of_int (round (x * 2 powr (52 - of_int e))) * 2 powr (of_int e - 52))"

definition sin_double :: "real \<Rightarrow> real" where
  "sin_double x = round_double (sin x)"

definition exp_double :: "real \<Rightarrow> real" where
  "exp_double x = round_double (exp x)"

text \<open>The partial sums of the series of the arc tangent, for the bounds of \<open>\<pi>\<close>.\<close>

definition arctan_sum :: "real \<Rightarrow> nat \<Rightarrow> real" where
  "arctan_sum x n = (\<Sum>k<n. (- 1) ^ k * (1 / real (k * 2 + 1) * x ^ (k * 2 + 1)))"

subsection \<open>The formulas of the specification\<close>

text \<open>
  The specification's \<^verbatim>\<open>effectScore\<close>, \<^verbatim>\<open>temperatureEffect\<close> and the rate of
  \<^verbatim>\<open>computeRate\<close>, written from its words and not from the source, to compare the
  source's \<open>calculateRate\<close> with.
\<close>

definition spec_effectScore :: "real \<Rightarrow> real \<Rightarrow> real" where
  "spec_effectScore v halfSaturation = 100 * v / (v + halfSaturation)"

definition spec_temperatureEffect :: "real \<Rightarrow> real \<Rightarrow> real" where
  "spec_temperatureEffect t optimal =
     (let g = 100 * exp (- ((t - optimal)\<^sup>2) / 200) in if g < 1 then 0 else g)"

definition spec_computeRate :: "real \<Rightarrow> real \<Rightarrow> real \<Rightarrow> real" where
  "spec_computeRate l c t =
     (if l < 1 then 0
      else min (min (spec_effectScore l 20) (spec_effectScore c 20))
             (spec_temperatureEffect t 25))"

section \<open>Properties\<close>

subsection \<open>What \<open>calculateRate\<close> returns and writes\<close>

lemma fst_calculateRate:
  "fst (calculateRate s) =
     (if light s < 1 then 0 else min (min (lightEffect s) (co2Effect s)) (tempEffect s))"
  by (simp add: calculateRate_def Let_def)

lemma growthRate_calculateRate: "growthRate (snd (calculateRate s)) = fst (calculateRate s)"
  by (simp add: calculateRate_def Let_def)

lemma limitingFactor_calculateRate:
  "limitingFactor (snd (calculateRate s)) \<in> {''light'', ''co2'', ''temp''}"
  by (simp add: calculateRate_def Let_def)

lemma tempEffect_spec: "tempEffect s = spec_temperatureEffect (temp s) 25"
  by (simp add: tempEffect_def spec_temperatureEffect_def tempDiff_def OPTIMAL_TEMP_def)

lemma lightEffect_spec: "lightEffect s = spec_effectScore (light s) 20"
  by (simp add: lightEffect_def spec_effectScore_def)

lemma co2Effect_spec: "co2Effect s = spec_effectScore (co2 s) 20"
  by (simp add: co2Effect_def spec_effectScore_def)

lemma tempEffect_le_100: "tempEffect s \<le> 100"
  by (simp add: tempEffect_def Let_def)

text \<open>
  Claim C2. Wherever no score divides by zero, the rate that \<open>calculateRate\<close> returns
  and stores in \<open>growthRate\<close> is the minimum of the light score
  \<open>100 * light / (light + 20)\<close>, the CO2 score \<open>100 * co2 / (co2 + 20)\<close> and the
  temperature effect, except that it is \<open>0\<close> when \<open>light < 1\<close>.
\<close>

theorem calculateRate_is_min:
  assumes "light s \<noteq> - 20" and "co2 s \<noteq> - 20"
  shows "fst (calculateRate s) = spec_computeRate (light s) (co2 s) (temp s)
       \<and> growthRate (snd (calculateRate s)) = spec_computeRate (light s) (co2 s) (temp s)"
  by (simp add: growthRate_calculateRate fst_calculateRate spec_computeRate_def
      tempEffect_spec lightEffect_spec co2Effect_spec)

theorem calculateRate_is_min_witness:
  "light state_init \<noteq> - 20 \<and> co2 state_init \<noteq> - 20
   \<and> fst (calculateRate state_init) = 200 / 3
   \<and> spec_computeRate (light state_init) (co2 state_init) (temp state_init) = 200 / 3"
proof -
  have "spec_computeRate 100 40 25 = 200 / 3"
    by (simp add: spec_computeRate_def spec_effectScore_def spec_temperatureEffect_def)
  then show ?thesis
    using calculateRate_is_min [of state_init] by (simp add: state_init_def)
qed

subsection \<open>The limiting factor is always set\<close>

lemma limitingFactor_updateSimulation:
  "limitingFactor (updateSimulation s) =
     limitingFactor (snd (calculateRate (calculateEnvironment s)))"
  by (simp add: updateSimulation_def Let_def split: prod.splits)

lemma limitingFactor_step_handler:
  "e \<noteq> Tick \<Longrightarrow> limitingFactor (step e s) = limitingFactor s"
  by (cases e) (simp_all add: handleManualInput_def co2Input_def pauseClick_def)

lemma limitingFactor_step_Tick: "limitingFactor (step Tick s) \<noteq> ''None''"
proof -
  have "limitingFactor (step Tick s) \<in> {''light'', ''co2'', ''temp''}"
    using limitingFactor_calculateRate [of "calculateEnvironment s"]
    by (simp add: limitingFactor_updateSimulation)
  then show ?thesis by auto
qed

lemma limitingFactor_run:
  "limitingFactor s \<noteq> ''None'' \<or> Tick \<in> set es \<Longrightarrow> limitingFactor (run es s) \<noteq> ''None''"
proof (induction es arbitrary: s)
  case Nil
  then show ?case by simp
next
  case (Cons e es)
  show ?case
  proof (cases "e = Tick")
    case True
    then show ?thesis
      using Cons.IH [of "step Tick s"] limitingFactor_step_Tick [of s] by simp
  next
    case False
    then show ?thesis
      using Cons.IH [of "step e s"] Cons.prems limitingFactor_step_handler [of e s] by auto
  qed
qed

text \<open>
  Claim C9. After every call of \<open>calculateRate\<close> the limiting factor is one of
  \<open>light\<close>, \<open>co2\<close> and \<open>temp\<close> and never \<open>None\<close>, also when \<open>light < 1\<close> has forced the
  rate to \<open>0\<close>. The initial state holds \<open>None\<close>, and no run of frames and handler calls
  from the initial state that contains a frame ends with \<open>None\<close>.
\<close>

theorem limitingFactor_never_None:
  "limitingFactor (snd (calculateRate s)) \<in> {''light'', ''co2'', ''temp''}
   \<and> limitingFactor (snd (calculateRate s)) \<noteq> ''None''
   \<and> (light s < 1 \<longrightarrow> fst (calculateRate s) = 0
        \<and> limitingFactor (snd (calculateRate s)) \<in> {''light'', ''co2'', ''temp''})
   \<and> limitingFactor state_init = ''None''
   \<and> (Tick \<in> set es \<longrightarrow> limitingFactor (run es state_init) \<noteq> ''None'')"
proof -
  have a: "limitingFactor (snd (calculateRate s)) \<in> {''light'', ''co2'', ''temp''}"
    by (rule limitingFactor_calculateRate)
  then have b: "limitingFactor (snd (calculateRate s)) \<noteq> ''None''" by auto
  have c: "light s < 1 \<longrightarrow> fst (calculateRate s) = 0"
    by (simp add: calculateRate_def Let_def)
  have d: "limitingFactor state_init = ''None''" by (simp add: state_init_def)
  have e: "Tick \<in> set es \<longrightarrow> limitingFactor (run es state_init) \<noteq> ''None''"
    using limitingFactor_run [of state_init es] by simp
  from a b c d e show ?thesis by blast
qed

theorem limitingFactor_never_None_witness:
  "light (state_init\<lparr>light := 0\<rparr>) < 1
   \<and> fst (calculateRate (state_init\<lparr>light := 0\<rparr>)) = 0
   \<and> limitingFactor (snd (calculateRate (state_init\<lparr>light := 0\<rparr>))) = ''light''
   \<and> Tick \<in> set [Tick, PauseClick]
   \<and> limitingFactor (run [Tick, PauseClick] state_init) \<noteq> ''None''"
proof -
  have "limitingFactor (snd (calculateRate (state_init\<lparr>light := 0\<rparr>))) = ''light''"
    by (simp add: calculateRate_def Let_def state_init_def lightEffect_def)
  then show ?thesis
    using limitingFactor_never_None [of "state_init\<lparr>light := 0\<rparr>" "[Tick, PauseClick]"]
    by (simp add: state_init_def)
qed

subsection \<open>What a frame leaves alone\<close>

lemma calculateEnvironment_paused: "\<not> autoPlay s \<Longrightarrow> calculateEnvironment s = s"
  by (simp add: calculateEnvironment_def)

lemma time_calculateEnvironment:
  "autoPlay s \<Longrightarrow>
     time (calculateEnvironment s) = (if time s + 0.02 \<ge> 24 then 0 else time s + 0.02)"
  by (simp add: calculateEnvironment_def Let_def)

lemma day_calculateEnvironment:
  "autoPlay s \<Longrightarrow>
     day (calculateEnvironment s) = (if time s + 0.02 \<ge> 24 then day s + 1 else day s)"
  by (simp add: calculateEnvironment_def Let_def)

lemma calculateRate_frame:
  "time (snd (calculateRate s)) = time s \<and> day (snd (calculateRate s)) = day s
   \<and> autoPlay (snd (calculateRate s)) = autoPlay s \<and> light (snd (calculateRate s)) = light s
   \<and> co2 (snd (calculateRate s)) = co2 s \<and> temp (snd (calculateRate s)) = temp s
   \<and> biomass (snd (calculateRate s)) = biomass s"
  by (simp add: calculateRate_def Let_def)

lemma updateSimulation_unfold:
  "updateSimulation s =
     (snd (calculateRate (calculateEnvironment s)))
       \<lparr>biomass := integrateBiomass (biomass (snd (calculateRate (calculateEnvironment s))))
                    (fst (calculateRate (calculateEnvironment s)))\<rparr>"
  by (simp add: updateSimulation_def Let_def case_prod_beta)

lemma updateSimulation_frame:
  "time (updateSimulation s) = time (calculateEnvironment s)
   \<and> day (updateSimulation s) = day (calculateEnvironment s)
   \<and> autoPlay (updateSimulation s) = autoPlay (calculateEnvironment s)
   \<and> light (updateSimulation s) = light (calculateEnvironment s)
   \<and> co2 (updateSimulation s) = co2 (calculateEnvironment s)
   \<and> temp (updateSimulation s) = temp (calculateEnvironment s)"
  by (simp add: updateSimulation_unfold calculateRate_frame)

lemma biomass_updateSimulation:
  "biomass (updateSimulation s) =
     integrateBiomass (biomass (calculateEnvironment s))
       (fst (calculateRate (calculateEnvironment s)))"
  by (simp add: updateSimulation_unfold calculateRate_frame)

lemma biomass_calculateEnvironment: "biomass (calculateEnvironment s) = biomass s"
  by (simp add: calculateEnvironment_def Let_def)

lemma co2_calculateEnvironment: "co2 (calculateEnvironment s) = co2 s"
  by (simp add: calculateEnvironment_def Let_def)

lemma autoPlay_calculateEnvironment: "autoPlay (calculateEnvironment s) = autoPlay s"
  by (simp add: calculateEnvironment_def Let_def)

text \<open>
  Claim C8. When \<open>autoPlay\<close> is false a frame leaves the time, the day, the light and
  the temperature as they are. The CO2 listener writes \<open>co2\<close> whatever \<open>autoPlay\<close> is and
  touches nothing else of the environment. After the manual handler has run with the
  light slider at \<open>10\<close>, \<open>autoPlay\<close> is false and the next frame leaves the light at \<open>10\<close>.
\<close>

theorem paused_tick_frame:
  assumes "\<not> autoPlay s"
  shows "time (updateSimulation s) = time s \<and> day (updateSimulation s) = day s
       \<and> light (updateSimulation s) = light s \<and> temp (updateSimulation s) = temp s
       \<and> autoPlay (updateSimulation s) = autoPlay s
       \<and> co2 (co2Input c s) = of_int c \<and> co2 (updateSimulation (co2Input c s)) = of_int c
       \<and> co2 (co2Input c u) = of_int c \<and> autoPlay (co2Input c u) = autoPlay u
       \<and> time (co2Input c u) = time u \<and> day (co2Input c u) = day u
       \<and> light (co2Input c u) = light u \<and> temp (co2Input c u) = temp u
       \<and> \<not> autoPlay (handleManualInput 10 k t u)
       \<and> light (handleManualInput 10 k t u) = 10
       \<and> light (updateSimulation (handleManualInput 10 k t u)) = 10"
proof -
  have a: "calculateEnvironment s = s" using assms by (rule calculateEnvironment_paused)
  have b: "calculateEnvironment (co2Input c s) = co2Input c s"
    using assms by (simp add: calculateEnvironment_def co2Input_def)
  have c: "calculateEnvironment (handleManualInput 10 k t u) = handleManualInput 10 k t u"
    by (simp add: calculateEnvironment_def handleManualInput_def)
  show ?thesis
    using a b c by (simp add: updateSimulation_frame) (simp add: co2Input_def handleManualInput_def)
qed

theorem paused_tick_frame_witness:
  "\<not> autoPlay (handleManualInput 10 40 25 state_init)
   \<and> time (updateSimulation (handleManualInput 10 40 25 state_init)) = 12
   \<and> day (updateSimulation (handleManualInput 10 40 25 state_init)) = 1
   \<and> light (updateSimulation (handleManualInput 10 40 25 state_init)) = 10
   \<and> temp (updateSimulation (handleManualInput 10 40 25 state_init)) = 25
   \<and> co2 (updateSimulation (co2Input 70 (handleManualInput 10 40 25 state_init))) = 70"
  using paused_tick_frame [of "handleManualInput 10 40 25 state_init" 70 state_init 40 25]
  by (simp add: handleManualInput_def state_init_def)

subsection \<open>The clock\<close>

text \<open>
  Claim C4, as stated: with \<open>autoPlay\<close> true the incremented time, when it is at least
  \<open>24\<close>, wraps to that time minus \<open>24\<close>. At \<open>time = 23.99\<close> the incremented time is
  \<open>24.01\<close>; the source then stores \<open>0\<close>, not \<open>0.01\<close>.
\<close>

theorem clock_wrap_counterexample:
  "autoPlay (state_init\<lparr>time := 23.99\<rparr>)
   \<and> time (state_init\<lparr>time := 23.99\<rparr>) + 0.02 \<ge> 24
   \<and> time (calculateEnvironment (state_init\<lparr>time := 23.99\<rparr>))
       \<noteq> time (state_init\<lparr>time := 23.99\<rparr>) + 0.02 - 24"
  by (simp add: calculateEnvironment_def Let_def state_init_def)

text \<open>
  Claim C4, amended. With \<open>autoPlay\<close> true the clock step of \<open>calculateEnvironment\<close>
  adds \<open>0.02\<close> to the time; when the incremented time is at least \<open>24\<close> it sets the time
  to \<open>0\<close> and adds exactly \<open>1\<close> to the day. With \<open>autoPlay\<close> false
  \<open>calculateEnvironment\<close> changes nothing.
\<close>

theorem clock_resets_to_zero:
  "(autoPlay s \<longrightarrow>
      time (calculateEnvironment s) = (if time s + 0.02 \<ge> 24 then 0 else time s + 0.02)
      \<and> day (calculateEnvironment s) = (if time s + 0.02 \<ge> 24 then day s + 1 else day s))
   \<and> (\<not> autoPlay s \<longrightarrow> calculateEnvironment s = s)"
  using time_calculateEnvironment day_calculateEnvironment calculateEnvironment_paused by blast

theorem clock_resets_to_zero_witness:
  "autoPlay (state_init\<lparr>time := 23.99\<rparr>)
   \<and> time (calculateEnvironment (state_init\<lparr>time := 23.99\<rparr>)) = 0
   \<and> day (calculateEnvironment (state_init\<lparr>time := 23.99\<rparr>)) = 2
   \<and> \<not> autoPlay (pauseClick state_init)
   \<and> calculateEnvironment (pauseClick state_init) = pauseClick state_init"
  using clock_resets_to_zero [of "state_init\<lparr>time := 23.99\<rparr>"]
    clock_resets_to_zero [of "pauseClick state_init"]
  by (simp add: state_init_def pauseClick_def)

subsection \<open>The biomass step\<close>

text \<open>
  Claim C5, as stated: the step adds \<open>rate * 0.0005 * dt\<close>. The source has no \<open>dt\<close>: a
  frame adds \<open>rate * 0.0005\<close> whatever time has passed, so at biomass \<open>15\<close>, rate \<open>60\<close>
  and \<open>dt = 2\<close> the result is \<open>15.03\<close> and not \<open>15.06\<close>.
\<close>

theorem integrateBiomass_dt_counterexample:
  "(60::real) > 0 \<and> 15 < MAX_BIOMASS \<and> integrateBiomass 15 60 \<noteq> 15 + 60 * 0.0005 * 2"
  by (simp add: integrateBiomass_def MAX_BIOMASS_def)

text \<open>
  Claim C5, amended. The biomass step of a frame takes the current biomass and the rate
  and no \<open>dt\<close>. When \<open>rate > 0\<close>, the biomass is below \<open>MAX_BIOMASS\<close> and the sum stays
  within \<open>MAX_BIOMASS\<close>, it returns \<open>biomass + rate * 0.0005\<close>; when \<open>rate \<le> 0\<close> or the
  biomass is at or above \<open>MAX_BIOMASS\<close>, it returns the biomass unchanged. A frame
  stores what the step returns for the rate of that frame.
\<close>

theorem integrateBiomass_step:
  "(rate > 0 \<and> b < MAX_BIOMASS \<and> b + rate * 0.0005 \<le> MAX_BIOMASS \<longrightarrow>
      integrateBiomass b rate = b + rate * 0.0005 \<and> integrateBiomass b rate \<le> MAX_BIOMASS)
   \<and> (rate \<le> 0 \<or> b \<ge> MAX_BIOMASS \<longrightarrow> integrateBiomass b rate = b)
   \<and> biomass (updateSimulation s) =
        integrateBiomass (biomass s) (fst (calculateRate (calculateEnvironment s)))"
  using biomass_updateSimulation [of s]
  by (auto simp add: integrateBiomass_def biomass_calculateEnvironment)

theorem integrateBiomass_step_witness:
  "(60::real) > 0 \<and> 15 < MAX_BIOMASS \<and> 15 + 60 * 0.0005 \<le> MAX_BIOMASS
   \<and> integrateBiomass 15 60 = 15.03
   \<and> (0::real) \<le> 0 \<and> integrateBiomass 15 0 = 15
   \<and> 200 \<ge> MAX_BIOMASS \<and> integrateBiomass 200 60 = 200"
  using integrateBiomass_step [of 60 15 state_init] integrateBiomass_step [of 0 15 state_init]
    integrateBiomass_step [of 60 200 state_init]
  by (simp add: MAX_BIOMASS_def)

subsection \<open>The light of the day\<close>

lemma map_p5_window: "map_p5 t 6 18 0 PI = (t - 6) / 12 * pi"
  by (simp add: map_p5_def PI_def)

lemma sin_window_nonneg:
  assumes "6 \<le> t" and "t \<le> 18"
  shows "0 \<le> sin (map_p5 t 6 18 0 PI)"
proof -
  have "0 \<le> (t - 6) / 12 * pi" using assms by simp
  moreover have "(t - 6) / 12 * pi \<le> 1 * pi"
    using assms by (intro mult_right_mono) simp_all
  ultimately show ?thesis unfolding map_p5_window by (simp add: sin_ge_zero)
qed

lemma light_calculateEnvironment:
  assumes "autoPlay s"
  shows "light (calculateEnvironment s) =
     (if 6 \<le> time (calculateEnvironment s) \<and> time (calculateEnvironment s) \<le> 18
      then sin (map_p5 (time (calculateEnvironment s)) 6 18 0 PI) * 100 else 0)"
proof (cases "time s + 0.02 \<ge> 24")
  case True
  then show ?thesis using assms by (simp add: calculateEnvironment_def Let_def)
next
  case False
  show ?thesis
  proof (cases "6 \<le> time s + 0.02 \<and> time s + 0.02 \<le> 18")
    case True
    then have "0 \<le> sin (map_p5 (time s + 0.02) 6 18 0 PI)"
      using sin_window_nonneg by blast
    then show ?thesis using assms True False
      by (simp add: calculateEnvironment_def Let_def not_less)
  next
    case out: False
    then show ?thesis using assms False by (auto simp add: calculateEnvironment_def Let_def)
  qed
qed

subsection \<open>The biomass over a run\<close>

lemma run_append: "run (es @ fs) s = run fs (run es s)"
  by (induction es arbitrary: s) simp_all

lemma fst_calculateRate_le_100: "fst (calculateRate s) \<le> 100"
  using tempEffect_le_100 [of s] by (simp add: fst_calculateRate min_le_iff_disj)

lemma integrateBiomass_ge: "b \<le> integrateBiomass b rate"
  by (simp add: integrateBiomass_def)

lemma integrateBiomass_capped: "MAX_BIOMASS \<le> b \<Longrightarrow> integrateBiomass b rate = b"
  by (simp add: integrateBiomass_def)

lemma integrateBiomass_le: "rate \<le> 100 \<Longrightarrow> integrateBiomass b rate \<le> b + 100 * 0.0005"
  by (simp add: integrateBiomass_def)

lemma integrateBiomass_bound:
  "rate \<le> 100 \<Longrightarrow> b \<le> 4001 / 20 \<Longrightarrow> integrateBiomass b rate \<le> 4001 / 20"
  by (simp add: integrateBiomass_def MAX_BIOMASS_def)

lemma biomass_tick:
  "biomass (updateSimulation s) =
     integrateBiomass (biomass s) (fst (calculateRate (calculateEnvironment s)))"
  by (simp add: biomass_updateSimulation biomass_calculateEnvironment)

lemma biomass_step_handler: "e \<noteq> Tick \<Longrightarrow> biomass (step e s) = biomass s"
  by (cases e) (simp_all add: handleManualInput_def co2Input_def pauseClick_def)

lemma biomass_step_capped: "MAX_BIOMASS \<le> biomass s \<Longrightarrow> biomass (step e s) = biomass s"
  by (cases "e = Tick") (simp_all add: biomass_tick integrateBiomass_capped biomass_step_handler)

lemma biomass_step_bound:
  assumes "biomass s \<le> 4001 / 20"
  shows "biomass (step e s) \<le> 4001 / 20"
proof (cases "e = Tick")
  case True
  have "integrateBiomass (biomass s) (fst (calculateRate (calculateEnvironment s))) \<le> 4001 / 20"
    using fst_calculateRate_le_100 assms by (rule integrateBiomass_bound)
  then show ?thesis unfolding True step.simps biomass_tick .
next
  case False
  show ?thesis unfolding biomass_step_handler [OF False] by (rule assms)
qed

lemma biomass_step_mono: "biomass s \<le> biomass (step e s)"
  by (cases "e = Tick") (simp_all add: biomass_tick integrateBiomass_ge biomass_step_handler)

lemma biomass_run_capped: "MAX_BIOMASS \<le> biomass s \<Longrightarrow> biomass (run es s) = biomass s"
  by (induction es arbitrary: s) (simp_all add: biomass_step_capped)

lemma biomass_run_bound:
  "biomass s \<le> 4001 / 20 \<Longrightarrow> biomass (run es s) \<le> 4001 / 20"
proof (induction es arbitrary: s)
  case Nil
  then show ?case unfolding run.simps .
next
  case (Cons e es)
  have "biomass (step e s) \<le> 4001 / 20" using Cons.prems by (rule biomass_step_bound)
  then have "biomass (run es (step e s)) \<le> 4001 / 20" by (rule Cons.IH)
  then show ?case unfolding run.simps .
qed

lemma biomass_run_mono: "biomass s \<le> biomass (run es s)"
proof (induction es arbitrary: s)
  case Nil
  show ?case by simp
next
  case (Cons e es)
  have "biomass s \<le> biomass (step e s)" by (rule biomass_step_mono)
  also have "\<dots> \<le> biomass (run es (step e s))" by (rule Cons.IH)
  finally show ?case by simp
qed

text \<open>
  Claim C10. Once the biomass is at or above \<open>MAX_BIOMASS = 200\<close>, no frame and no run
  of frames and handler calls changes it. A frame adds at most \<open>100 * 0.0005 = 0.05\<close>,
  and only when the biomass is below \<open>200\<close>; so from the initial state the biomass never
  exceeds \<open>200.05\<close>.
\<close>

theorem biomass_stops_at_cap:
  "(MAX_BIOMASS \<le> biomass s \<longrightarrow>
      biomass (updateSimulation s) = biomass s \<and> biomass (run es s) = biomass s)
   \<and> biomass (updateSimulation s) \<le> biomass s + 100 * 0.0005
   \<and> (biomass (updateSimulation s) \<noteq> biomass s \<longrightarrow> biomass s < MAX_BIOMASS)
   \<and> MAX_BIOMASS = 200
   \<and> biomass (run es state_init) \<le> 200.05"
proof -
  have a: "MAX_BIOMASS \<le> biomass s \<longrightarrow>
      biomass (updateSimulation s) = biomass s \<and> biomass (run es s) = biomass s"
    by (simp add: biomass_tick integrateBiomass_capped biomass_run_capped)
  have b: "biomass (updateSimulation s) \<le> biomass s + 100 * 0.0005"
    unfolding biomass_tick by (rule integrateBiomass_le) (rule fst_calculateRate_le_100)
  have c: "biomass (updateSimulation s) \<noteq> biomass s \<longrightarrow> biomass s < MAX_BIOMASS"
    by (simp add: biomass_tick integrateBiomass_def)
  have "biomass (run es state_init) \<le> 4001 / 20"
    by (rule biomass_run_bound) (simp add: state_init_def)
  then have d: "biomass (run es state_init) \<le> 200.05" by simp
  from a b c d show ?thesis by (simp add: MAX_BIOMASS_def)
qed

theorem biomass_stops_at_cap_witness:
  "MAX_BIOMASS \<le> biomass (state_init\<lparr>biomass := 200.01\<rparr>)
   \<and> biomass (updateSimulation (state_init\<lparr>biomass := 200.01\<rparr>)) = 200.01
   \<and> biomass (run [Tick, Co2Input 90, Tick] (state_init\<lparr>biomass := 200.01\<rparr>)) = 200.01
   \<and> biomass (updateSimulation (pauseClick state_init)) \<noteq> biomass (pauseClick state_init)
   \<and> biomass (pauseClick state_init) < MAX_BIOMASS
   \<and> biomass (run [Tick, Co2Input 90, Tick] state_init) \<le> 200.05"
proof -
  let ?c = "state_init\<lparr>biomass := 200.01\<rparr>"
  let ?p = "pauseClick state_init"
  let ?es = "[Tick, Co2Input 90, Tick]"
  have c: "MAX_BIOMASS \<le> biomass ?c" by (simp add: state_init_def MAX_BIOMASS_def)
  have bc: "biomass ?c = 200.01" by (simp add: state_init_def)
  have e: "calculateEnvironment ?p = ?p"
    by (rule calculateEnvironment_paused) (simp add: pauseClick_def state_init_def)
  have r: "fst (calculateRate ?p) = 200 / 3"
    by (simp add: fst_calculateRate lightEffect_def co2Effect_def tempEffect_def tempDiff_def
        OPTIMAL_TEMP_def pauseClick_def state_init_def)
  have bp: "biomass ?p = 15" by (simp add: pauseClick_def state_init_def)
  have "biomass (updateSimulation ?p) = integrateBiomass 15 (200 / 3)"
    by (simp only: biomass_tick e r bp)
  then have n: "biomass (updateSimulation ?p) \<noteq> biomass ?p"
    by (simp add: bp integrateBiomass_def MAX_BIOMASS_def)
  note w = biomass_stops_at_cap [of ?c ?es] biomass_stops_at_cap [of ?p ?es]
  from w(1) c have "biomass (updateSimulation ?c) = 200.01 \<and> biomass (run ?es ?c) = 200.01"
    by (simp only: bc)
  moreover from w(2) n have "biomass ?p < MAX_BIOMASS" by blast
  moreover from w(1) have "biomass (run ?es state_init) \<le> 200.05" by blast
  ultimately show ?thesis using c n by blast
qed

subsection \<open>A run that passes the cap\<close>

text \<open>
  With the sliders at light \<open>90\<close>, CO2 \<open>30\<close> and temperature \<open>25\<close> the clock is paused
  and every frame has the rate \<open>60\<close>, the CO2 score, so every frame below the cap adds
  \<open>0.03\<close>.
\<close>

lemma tick_manual_90_30_25:
  assumes "\<not> autoPlay s" "light s = 90" "co2 s = 30" "temp s = 25"
  shows "\<not> autoPlay (updateSimulation s) \<and> light (updateSimulation s) = 90
       \<and> co2 (updateSimulation s) = 30 \<and> temp (updateSimulation s) = 25
       \<and> biomass (updateSimulation s) = integrateBiomass (biomass s) 60"
proof -
  have e: "calculateEnvironment s = s" using assms(1) by (rule calculateEnvironment_paused)
  have "tempEffect s = 100"
    using assms(4) by (simp add: tempEffect_def tempDiff_def OPTIMAL_TEMP_def)
  then have "fst (calculateRate s) = 60"
    using assms by (simp add: fst_calculateRate lightEffect_def co2Effect_def)
  then show ?thesis using assms e by (simp add: updateSimulation_frame biomass_tick)
qed

lemma ticks_manual_90_30_25:
  assumes "\<not> autoPlay s" "light s = 90" "co2 s = 30" "temp s = 25"
    and "biomass s + 3 / 100 * real n < 20003 / 100"
  shows "biomass (run (replicate n Tick) s) = biomass s + 3 / 100 * real n"
  using assms
proof (induction n arbitrary: s)
  case 0
  show ?case by simp
next
  case (Suc n)
  note t = tick_manual_90_30_25 [OF Suc.prems(1-4)]
  have p: "biomass s + 3 / 100 + 3 / 100 * real n < 20003 / 100"
    using Suc.prems(5) unfolding of_nat_Suc distrib_left by simp
  have "0 \<le> real n" by simp
  then have "biomass s < MAX_BIOMASS"
    using p unfolding MAX_BIOMASS_def by linarith
  then have b: "biomass (updateSimulation s) = biomass s + 3 / 100"
    using t by (simp add: integrateBiomass_def)
  have "biomass (run (replicate n Tick) (updateSimulation s))
      = biomass (updateSimulation s) + 3 / 100 * real n"
  proof (rule Suc.IH)
    show "biomass (updateSimulation s) + 3 / 100 * real n < 20003 / 100"
      unfolding b by (rule p)
  qed (simp_all add: t)
  then show ?case using b by (simp add: algebra_simps)
qed

text \<open>
  Claim C1, at a failing run. From the initial state, the CO2 slider is set to \<open>30\<close>,
  the light slider to \<open>90\<close> (the manual handler, with the temperature slider at \<open>25\<close>),
  and \<open>6167\<close> frames follow: the biomass is \<open>199.98\<close> after \<open>6166\<close> frames, still below
  the cap, and the next frame stores \<open>200.01\<close>, above \<open>MAX_BIOMASS\<close>. (That the biomass
  never decreases is \<open>biomass_run_mono\<close>.)
\<close>

theorem biomass_overshoots_cap:
  "biomass (run (Co2Input 30 # ManualInput 90 30 25 # replicate 6167 Tick) state_init)
     = 200.01
   \<and> MAX_BIOMASS
       < biomass (run (Co2Input 30 # ManualInput 90 30 25 # replicate 6167 Tick) state_init)"
proof -
  let ?s = "handleManualInput 90 30 25 (co2Input 30 state_init)"
  have "biomass (run (replicate 6167 Tick) ?s) = biomass ?s + 3 / 100 * real 6167"
    by (rule ticks_manual_90_30_25)
      (simp_all add: handleManualInput_def co2Input_def state_init_def)
  then have "biomass (run (replicate 6167 Tick) ?s) = 200.01"
    by (simp add: handleManualInput_def co2Input_def state_init_def)
  then show ?thesis by (simp add: MAX_BIOMASS_def)
qed

subsection \<open>The limiting factor at dusk\<close>

lemma tick_autoPlay:
  assumes "autoPlay s" and "time s + 1 / 50 < 24"
  shows "autoPlay (updateSimulation s) \<and> time (updateSimulation s) = time s + 1 / 50
       \<and> co2 (updateSimulation s) = co2 s"
  using assms
  by (simp add: updateSimulation_frame autoPlay_calculateEnvironment co2_calculateEnvironment
      time_calculateEnvironment)

lemma ticks_autoPlay:
  assumes "autoPlay s" and "time s + 1 / 50 * real n < 24"
  shows "autoPlay (run (replicate n Tick) s)
       \<and> time (run (replicate n Tick) s) = time s + 1 / 50 * real n
       \<and> co2 (run (replicate n Tick) s) = co2 s"
  using assms
proof (induction n arbitrary: s)
  case 0
  then show ?case by simp
next
  case (Suc n)
  have p: "time s + 1 / 50 + 1 / 50 * real n < 24"
    using Suc.prems(2) unfolding of_nat_Suc distrib_left by simp
  have "0 \<le> real n" by simp
  then have "time s + 1 / 50 < 24" using p by simp
  then have t: "autoPlay (updateSimulation s) \<and> time (updateSimulation s) = time s + 1 / 50
       \<and> co2 (updateSimulation s) = co2 s"
    using Suc.prems(1) by (intro tick_autoPlay)
  have "autoPlay (run (replicate n Tick) (updateSimulation s))
       \<and> time (run (replicate n Tick) (updateSimulation s))
           = time (updateSimulation s) + 1 / 50 * real n
       \<and> co2 (run (replicate n Tick) (updateSimulation s)) = co2 (updateSimulation s)"
  proof (rule Suc.IH)
    show "autoPlay (updateSimulation s)" using t by simp
    show "time (updateSimulation s) + 1 / 50 * real n < 24" using t p by simp
  qed
  then show ?case using t by (simp add: algebra_simps)
qed


lemma run_replicate_Suc: "run (replicate (Suc n) e) s = step e (run (replicate n e) s)"
proof -
  have "replicate (Suc n) e = replicate n e @ [e]"
    by (simp only: replicate_Suc replicate_append_same)
  then show ?thesis by (simp only: run_append run.simps)
qed

lemma exp_minus_2_ge: "1 / 9 \<le> exp (- (2::real))"
proof -
  have "exp (2::real) = exp 1 * exp 1" by (simp flip: exp_add)
  also have "\<dots> \<le> 3 * 3" by (intro mult_mono exp_le) simp_all
  finally have "exp (2::real) \<le> 9" by simp
  then have "inverse 9 \<le> inverse (exp (2::real))" by (intro le_imp_inverse_le) simp_all
  then show ?thesis by (simp add: exp_minus inverse_eq_divide)
qed

lemma tempEffect_mild:
  assumes "10 \<le> temp s" and "temp s \<le> 30"
  shows "100 / 9 \<le> tempEffect s"
proof -
  have "tempDiff s \<le> 15" "0 \<le> tempDiff s"
    using assms by (simp_all add: tempDiff_def OPTIMAL_TEMP_def)
  then have "(tempDiff s)\<^sup>2 \<le> 15\<^sup>2" by (intro power_mono)
  then have "- 2 \<le> - ((tempDiff s)\<^sup>2 / 200)" by simp
  then have "exp (- 2) \<le> exp (- ((tempDiff s)\<^sup>2 / 200))" by simp
  then have "1 / 9 \<le> exp (- ((tempDiff s)\<^sup>2 / 200))"
    using exp_minus_2_ge by linarith
  then have g: "100 / 9 \<le> 100 * exp (- ((tempDiff s)\<^sup>2 / 200))" by simp
  then have "\<not> 100 * exp (- ((tempDiff s)\<^sup>2 / 200)) < 1" by simp
  then show ?thesis using g by (simp add: tempEffect_def Let_def)
qed

lemma limitingFactor_daylight:
  assumes "1 \<le> light s"
  shows "limitingFactor (snd (calculateRate s)) =
     (if lightEffect s \<le> co2Effect s \<and> lightEffect s \<le> tempEffect s then ''light''
      else if co2Effect s \<le> tempEffect s then ''co2'' else ''temp'')"
  using assms by (auto simp add: calculateRate_def Let_def min_def)

lemma limitingFactor_twilight:
  assumes "0 < light s" and "light s < 1" and "co2 s = 40"
  shows "limitingFactor (snd (calculateRate s)) = ''temp''"
  using assms by (simp add: calculateRate_def Let_def lightEffect_def co2Effect_def)

lemma lightEffect_twilight:
  assumes "0 < light s" and "light s < 1"
  shows "lightEffect s < 5"
proof -
  have "light s / (light s + 20) < 1 / 20"
    using assms by (simp add: divide_simps)
  then show ?thesis by (simp add: lightEffect_def)
qed

lemma sin_near_pi: "0 < sin (599 / 600 * pi) \<and> sin (599 / 600 * pi) * 100 < 1"
proof -
  have a: "0 < sin (599 / 600 * pi)" by (intro sin_gt_zero) simp_all
  have "sin (599 / 600 * pi) = sin (pi - pi / 600)" by (simp add: algebra_simps)
  also have "\<dots> = sin (pi / 600)" by (rule sin_pi_minus)
  also have "\<dots> \<le> pi / 600" by (intro sin_x_le_x) simp
  also have "\<dots> < 4 / 600" using pi_less_4 by simp
  finally have "sin (599 / 600 * pi) * 100 < 1" by simp
  then show ?thesis using a by simp
qed

lemma calculateEnvironment_dusk:
  assumes "autoPlay s" and "time s = 449 / 25"
  shows "0 < light (calculateEnvironment s) \<and> light (calculateEnvironment s) < 1
       \<and> 10 \<le> temp (calculateEnvironment s) \<and> temp (calculateEnvironment s) \<le> 30"
proof -
  have t: "time (calculateEnvironment s) = 899 / 50"
    using assms by (simp add: time_calculateEnvironment)
  have "light (calculateEnvironment s) = sin (599 / 600 * pi) * 100"
    using light_calculateEnvironment [OF assms(1)] unfolding t by (simp add: map_p5_window)
  then have l: "0 < light (calculateEnvironment s) \<and> light (calculateEnvironment s) < 1"
    using sin_near_pi by simp
  have "\<exists>x. temp (calculateEnvironment s) = 20 + sin x * 10"
    using assms(1) by (auto simp add: calculateEnvironment_def Let_def)
  then obtain x where x: "temp (calculateEnvironment s) = 20 + sin x * 10" by blast
  have "10 \<le> temp (calculateEnvironment s) \<and> temp (calculateEnvironment s) \<le> 30"
    using sin_ge_minus_one [of x] sin_le_one [of x] unfolding x by linarith
  then show ?thesis using l by simp
qed

text \<open>
  With \<open>light \<ge> 1\<close> the reported factor is the one with the smallest score, light
  before CO2 before temperature on ties (\<open>limitingFactor_daylight\<close>).
\<close>

text \<open>
  Claim C3, at a failing run. After \<open>299\<close> frames from the initial state the time is
  \<open>17.98\<close> and the derived light is \<open>100 * sin (\<pi> / 600)\<close>, between \<open>0\<close> and \<open>1\<close>. The
  light score is then strictly the smallest of the three scores, but the rate has been
  set to \<open>0\<close>, which equals none of the scores, and the source reports \<open>temp\<close>.
\<close>

theorem limitingFactor_at_dusk:
  "0 < light (run (replicate 299 Tick) state_init)
   \<and> light (run (replicate 299 Tick) state_init) < 1
   \<and> lightEffect (run (replicate 299 Tick) state_init)
       < co2Effect (run (replicate 299 Tick) state_init)
   \<and> lightEffect (run (replicate 299 Tick) state_init)
       < tempEffect (run (replicate 299 Tick) state_init)
   \<and> limitingFactor (run (replicate 299 Tick) state_init) = ''temp''"
proof -
  let ?s = "run (replicate 298 Tick) state_init"
  let ?e = "calculateEnvironment ?s"
  have "autoPlay ?s \<and> time ?s = time state_init + 1 / 50 * real 298 \<and> co2 ?s = co2 state_init"
    by (rule ticks_autoPlay) (simp_all add: state_init_def)
  then have s: "autoPlay ?s" "time ?s = 449 / 25" "co2 ?s = 40"
    by (simp_all add: state_init_def)
  have n: "(299::nat) = Suc 298" by simp
  have r: "run (replicate 299 Tick) state_init = updateSimulation ?s"
    unfolding n by (simp only: run_replicate_Suc step.simps)
  note d = calculateEnvironment_dusk [OF s(1,2)]
  have c: "co2 ?e = 40" using s(3) by (simp add: co2_calculateEnvironment)
  have u: "light (updateSimulation ?s) = light ?e" "co2 (updateSimulation ?s) = co2 ?e"
    "temp (updateSimulation ?s) = temp ?e"
    by (simp_all add: updateSimulation_frame)
  have le: "lightEffect (updateSimulation ?s) < 5"
    using d by (intro lightEffect_twilight) (simp_all add: u)
  have ce: "co2Effect (updateSimulation ?s) = 200 / 3"
    using c by (simp add: co2Effect_def u)
  have te: "100 / 9 \<le> tempEffect (updateSimulation ?s)"
    using d by (intro tempEffect_mild) (simp_all add: u)
  have lf: "limitingFactor (updateSimulation ?s) = ''temp''"
    unfolding limitingFactor_updateSimulation using d c by (intro limitingFactor_twilight) simp_all
  show ?thesis unfolding r using d le ce te lf by (simp add: u)
qed

subsection \<open>Bounds of \<open>\<pi>\<close> and the double \<^verbatim>\<open>PI\<close>\<close>

lemma arctan_term_decreasing:
  fixes x :: real
  assumes "0 \<le> x" and "x \<le> 1"
  shows "1 / real (Suc n * 2 + 1) * x ^ (Suc n * 2 + 1) \<le> 1 / real (n * 2 + 1) * x ^ (n * 2 + 1)"
proof -
  have "x ^ (Suc n * 2 + 1) \<le> x ^ (n * 2 + 1)"
    using assms by (intro power_decreasing) simp_all
  moreover have "1 / real (Suc n * 2 + 1) \<le> 1 / real (n * 2 + 1)"
    by (intro divide_left_mono) simp_all
  moreover have "0 \<le> x ^ (Suc n * 2 + 1)" using assms by simp
  ultimately show ?thesis by (intro mult_mono) simp_all
qed

lemma arctan_bounds:
  fixes x :: real
  assumes "0 \<le> x" and "x \<le> 1"
  shows "arctan_sum x (2 * n) \<le> arctan x" and "arctan x \<le> arctan_sum x (2 * n + 1)"
proof -
  let ?a = "\<lambda>n. 1 / real (n * 2 + 1) * x ^ (n * 2 + 1)"
  have ax: "\<bar>x\<bar> \<le> 1" using assms by simp
  have z: "?a \<longlonglongrightarrow> 0" using ax by (rule zeroseq_arctan_series)
  have p: "0 \<le> ?a n" for n using assms by simp
  have m: "?a (Suc n) \<le> ?a n" for n using assms by (rule arctan_term_decreasing)
  have s: "arctan x = (\<Sum>k. (- 1) ^ k * ?a k)" using ax by (rule arctan_series)
  show "arctan_sum x (2 * n) \<le> arctan x"
    unfolding s arctan_sum_def using summable_Leibniz'(2) [of ?a, OF z p m] by simp
  show "arctan x \<le> arctan_sum x (2 * n + 1)"
    unfolding s arctan_sum_def using summable_Leibniz'(4) [of ?a, OF z p m] by simp
qed

lemma arctan_sum_Suc:
  "arctan_sum x (Suc n) = arctan_sum x n + (- 1) ^ n * (1 / real (n * 2 + 1) * x ^ (n * 2 + 1))"
  by (simp add: arctan_sum_def)

lemma arctan_sum_0: "arctan_sum x 0 = 0"
  by (simp add: arctan_sum_def)

lemma arctan_sum_numeral:
  "arctan_sum x (numeral k) = arctan_sum x (pred_numeral k)
     + (- 1) ^ pred_numeral k * (1 / real (pred_numeral k * 2 + 1) * x ^ (pred_numeral k * 2 + 1))"
  by (simp only: numeral_eq_Suc arctan_sum_Suc)

lemma arctan_sum_1: "arctan_sum x 1 = x"
  using arctan_sum_Suc [of x 0] by (simp add: arctan_sum_0)

lemma PI_double_less_pi: "PI_double < pi"
proof -
  have a: "arctan_sum (1 / 5) 12 \<le> arctan (1 / 5)"
    using arctan_bounds(1) [of "1 / 5" 6] by simp
  have b: "arctan (1 / 239) \<le> arctan_sum (1 / 239) 5"
    using arctan_bounds(2) [of "1 / 239" 2] by simp
  have "PI_double / 4 < 4 * arctan_sum (1 / 5) 12 - arctan_sum (1 / 239) 5"
    by (simp add: PI_double_def arctan_sum_numeral arctan_sum_Suc arctan_sum_0 power_one_over)
  also have "\<dots> \<le> 4 * arctan (1 / 5) - arctan (1 / 239)" using a b by simp
  also have "\<dots> = pi / 4" by (simp only: machin)
  finally show ?thesis by simp
qed

lemma pi_less_PI_double: "pi < PI_double + 1 / 10 ^ 10"
proof -
  have a: "arctan (1 / 5) \<le> arctan_sum (1 / 5) 7"
    using arctan_bounds(2) [of "1 / 5" 3] by simp
  have b: "arctan_sum (1 / 239) 2 \<le> arctan (1 / 239)"
    using arctan_bounds(1) [of "1 / 239" 1] by simp
  have "pi / 4 = 4 * arctan (1 / 5) - arctan (1 / 239)" by (simp only: machin)
  also have "\<dots> \<le> 4 * arctan_sum (1 / 5) 7 - arctan_sum (1 / 239) 2" using a b by simp
  also have "\<dots> < (PI_double + 1 / 10 ^ 10) / 4"
    by (simp add: PI_double_def arctan_sum_numeral arctan_sum_Suc arctan_sum_0 power_one_over)
  finally show ?thesis by simp
qed

subsection \<open>Rounding to a double\<close>

lemma round_double_0: "round_double 0 = 0"
  by (simp add: round_double_def)

lemma round_double_1: "round_double 1 = 1"
  by (simp add: round_double_def powr_neg_numeral)

lemma floor_log2_bounds:
  assumes "0 < x"
  shows "2 powr of_int \<lfloor>log 2 x\<rfloor> \<le> x" and "x < 2 powr (of_int \<lfloor>log 2 x\<rfloor> + 1)"
  using floor_log_eq_powr_iff [of x 2 "\<lfloor>log 2 x\<rfloor>"] assms by simp_all

lemma round_double_pos_bounds:
  assumes "0 < x"
  shows "2 powr of_int \<lfloor>log 2 x\<rfloor> \<le> round_double x"
    and "round_double x \<le> 2 powr (of_int \<lfloor>log 2 x\<rfloor> + 1)"
proof -
  let ?e = "\<lfloor>log 2 x\<rfloor>"
  let ?m = "x * 2 powr (52 - of_int ?e)"
  have r: "round_double x = of_int (round ?m) * 2 powr (of_int ?e - 52)"
    using assms by (simp add: round_double_def Let_def)
  have "2 powr of_int ?e * 2 powr (52 - of_int ?e) \<le> ?m"
    using floor_log2_bounds(1) [OF assms] by (intro mult_right_mono) simp_all
  then have lo: "2 ^ 52 \<le> ?m" by (simp flip: powr_add)
  have "?m < 2 powr (of_int ?e + 1) * 2 powr (52 - of_int ?e)"
    using floor_log2_bounds(2) [OF assms] by (intro mult_strict_right_mono) simp_all
  then have hi: "?m < 2 ^ 53" by (simp flip: powr_add)
  have "round (2 ^ 52 :: real) \<le> round ?m" using lo by (rule round_mono)
  then have rl: "(2 ^ 52 :: real) \<le> of_int (round ?m)"
    by (metis of_int_le_iff of_int_numeral of_int_power round_of_int)
  have "round ?m \<le> round (2 ^ 53 :: real)" using hi by (intro round_mono) simp
  then have rh: "of_int (round ?m) \<le> (2 ^ 53 :: real)"
    by (metis of_int_le_iff of_int_numeral of_int_power round_of_int)
  have "2 powr of_int ?e = (2 ^ 52 :: real) * 2 powr (of_int ?e - 52)"
    by (simp add: powr_diff)
  also have "\<dots> \<le> of_int (round ?m) * 2 powr (of_int ?e - 52)"
    using rl by (intro mult_right_mono) simp_all
  finally show "2 powr of_int ?e \<le> round_double x" unfolding r .
  have "of_int (round ?m) * 2 powr (of_int ?e - 52)
      \<le> (2 ^ 53 :: real) * 2 powr (of_int ?e - 52)"
    using rh by (intro mult_right_mono) simp_all
  also have "\<dots> = 2 powr (of_int ?e + 1)"
    by (simp add: powr_diff powr_add)
  finally show "round_double x \<le> 2 powr (of_int ?e + 1)" unfolding r .
qed

lemma round_double_pos: "0 < x \<Longrightarrow> 0 < round_double x"
  using round_double_pos_bounds(1) [of x] powr_gt_zero [of 2 "of_int \<lfloor>log 2 x\<rfloor>"]
  by linarith

lemma round_double_nonneg: "0 \<le> x \<Longrightarrow> 0 \<le> round_double x"
  using round_double_pos [of x] round_double_0 by (cases "x = 0") simp_all


lemma round_double_le_1:
  assumes "0 \<le> x" and "x \<le> 1"
  shows "round_double x \<le> 1"
proof (cases "x = 0 \<or> x = 1")
  case True
  then show ?thesis using round_double_0 round_double_1 by auto
next
  case False
  then have x: "0 < x" "x < 1" using assms by simp_all
  then have "log 2 x < 0" by simp
  then have "\<lfloor>log 2 x\<rfloor> \<le> - 1" by linarith
  then have "of_int \<lfloor>log 2 x\<rfloor> + 1 \<le> (0::real)" by linarith
  then have "2 powr (of_int \<lfloor>log 2 x\<rfloor> + 1) \<le> 2 powr (0::real)"
    by (intro powr_mono) simp_all
  then show ?thesis using round_double_pos_bounds(2) [OF x(1)] by simp
qed

lemma round_double_binade:
  assumes "1 / 2 \<le> x" and "x < 1"
  shows "round_double x = of_int (round (x * 2 ^ 53)) / 2 ^ 53"
proof -
  have "0 < x" using assms by simp
  then have "\<lfloor>log 2 x\<rfloor> = - 1"
    using assms by (simp add: floor_log_eq_powr_iff powr_minus inverse_eq_divide)
  then show ?thesis
    using \<open>0 < x\<close> by (simp add: round_double_def Let_def powr_neg_numeral)
qed

lemma round_double_near_1:
  assumes "1 - 1 / 2 ^ 54 \<le> x" and "x \<le> 1"
  shows "round_double x = 1"
proof (cases "x = 1")
  case True
  then show ?thesis by (simp add: round_double_1)
next
  case False
  then have x: "1 / 2 \<le> x" "x < 1" using assms by simp_all
  have "2 ^ 53 - 1 / 2 \<le> x * 2 ^ 53" using assms(1) by (simp add: field_simps)
  moreover have "x * 2 ^ 53 < 2 ^ 53" using x(2) by simp
  ultimately have "round (x * 2 ^ 53) = 2 ^ 53"
    unfolding round_def by (intro floor_unique) simp_all
  then show ?thesis by (simp add: round_double_binade [OF x])
qed

lemma round_double_below_1:
  assumes "0 \<le> x" and "x < 1 - 1 / 2 ^ 54"
  shows "round_double x < 1"
proof (cases "1 / 2 \<le> x")
  case True
  have x1: "x < 1" using assms(2) by simp
  have "x * 2 ^ 53 + 1 / 2 < 2 ^ 53" using assms(2) by (simp add: field_simps)
  then have "round (x * 2 ^ 53) < 2 ^ 53"
    unfolding round_def by (simp add: floor_less_iff)
  then have "of_int (round (x * 2 ^ 53)) < (2 ^ 53 :: real)"
    by (metis of_int_less_iff of_int_numeral of_int_power)
  then show ?thesis by (simp add: round_double_binade [OF True x1])
next
  case False
  show ?thesis
  proof (cases "x = 0")
    case True
    then show ?thesis by (simp add: round_double_0)
  next
    case nz: False
    then have x: "0 < x" "x < 1 / 2" using assms False by simp_all
    then have "x < 2 powr - 1" by (simp add: powr_minus inverse_eq_divide)
    then have "log 2 x < - 1" using x(1) by (simp add: log_less_iff)
    then have "\<lfloor>log 2 x\<rfloor> \<le> - 2" by linarith
    then have "of_int \<lfloor>log 2 x\<rfloor> + 1 \<le> (- 1::real)" by linarith
    then have "2 powr (of_int \<lfloor>log 2 x\<rfloor> + 1) \<le> 2 powr (- 1::real)"
      by (intro powr_mono) simp_all
    then have "round_double x \<le> 1 / 2"
      using round_double_pos_bounds(2) [OF x(1)] by (simp add: powr_minus inverse_eq_divide)
    then show ?thesis by simp
  qed
qed

subsection \<open>The sine and the exponential on doubles\<close>

lemma PI_double_pos: "0 < PI_double"
  by (simp add: PI_double_def)

lemma sin_PI_double_pos: "0 < sin PI_double"
  using PI_double_pos PI_double_less_pi by (rule sin_gt_zero)

lemma sin_double_0: "sin_double 0 = 0"
  by (simp add: sin_double_def round_double_0)

lemma sin_double_PI_double_pos: "0 < sin_double PI_double"
  unfolding sin_double_def using sin_PI_double_pos by (rule round_double_pos)

lemma cos_ge_1_minus_sq: "1 - x\<^sup>2 / 2 \<le> cos (x::real)"
proof -
  have "\<bar>sin (x / 2)\<bar> \<le> \<bar>x / 2\<bar>" by (rule abs_sin_x_le_abs_x)
  then have "\<bar>sin (x / 2)\<bar>\<^sup>2 \<le> \<bar>x / 2\<bar>\<^sup>2" by (intro power_mono) simp_all
  then have "(sin (x / 2))\<^sup>2 \<le> x\<^sup>2 / 4" by (simp add: power_divide)
  moreover have "cos x = 1 - 2 * (sin (x / 2))\<^sup>2"
    using cos_double_sin [of "x / 2"] by simp
  ultimately show ?thesis by simp
qed

lemma sin_half_PI_double: "1 - 1 / 2 ^ 54 \<le> sin (PI_double / 2)"
proof -
  let ?d = "pi / 2 - PI_double / 2"
  have d: "0 \<le> ?d" "?d \<le> 1 / 10 ^ 10"
    using PI_double_less_pi pi_less_PI_double by simp_all
  then have "?d\<^sup>2 \<le> (1 / 10 ^ 10)\<^sup>2" by (intro power_mono)
  moreover have "(1 / 10 ^ 10)\<^sup>2 / 2 \<le> (1 / 2 ^ 54 :: real)"
    by (simp add: power_one_over)
  ultimately have "?d\<^sup>2 / 2 \<le> 1 / 2 ^ 54" by linarith
  moreover have "1 - ?d\<^sup>2 / 2 \<le> cos ?d" by (rule cos_ge_1_minus_sq)
  moreover have "sin (PI_double / 2) = cos ?d" by (simp add: sin_cos_eq)
  ultimately show ?thesis by simp
qed

lemma sin_double_half_PI_double: "sin_double (PI_double / 2) = 1"
  unfolding sin_double_def using sin_half_PI_double by (rule round_double_near_1) simp

lemma exp_double_0: "exp_double 0 = 1"
  by (simp add: exp_double_def round_double_1)

lemma exp_double_le_1: "x \<le> 0 \<Longrightarrow> exp_double x \<le> 1"
  unfolding exp_double_def by (rule round_double_le_1) simp_all

lemma exp_double_less_1:
  assumes "x \<le> - (1 / 2 ^ 53)"
  shows "exp_double x < 1"
proof -
  have "1 + 1 / 2 ^ 53 \<le> exp (1 / 2 ^ 53 :: real)" by (rule exp_ge_add_one_self)
  then have "inverse (exp (1 / 2 ^ 53 :: real)) \<le> inverse (1 + 1 / 2 ^ 53)"
    by (intro le_imp_inverse_le) simp_all
  moreover have "inverse (1 + 1 / 2 ^ 53) < (1 - 1 / 2 ^ 54 :: real)" by simp
  moreover have "exp x \<le> exp (- (1 / 2 ^ 53 :: real))" using assms by simp
  ultimately have "exp x < 1 - 1 / 2 ^ 54" by (simp add: exp_minus)
  then show ?thesis unfolding exp_double_def by (intro round_double_below_1) simp_all
qed

lemma exp_double_near_0:
  assumes "- (1 / 2 ^ 54) \<le> x" and "x \<le> 0"
  shows "exp_double x = 1"
proof -
  have "1 + x \<le> exp x" by (rule exp_ge_add_one_self)
  then have "1 - 1 / 2 ^ 54 \<le> exp x" using assms(1) by linarith
  then show ?thesis
    unfolding exp_double_def using assms(2) by (intro round_double_near_1) simp_all
qed

subsection \<open>The light at the ends of the day\<close>

lemma calculateEnvironment_with_exact: "calculateEnvironment_with sin pi = calculateEnvironment"
  by (rule ext) (simp only: calculateEnvironment_with_def calculateEnvironment_def PI_def TWO_PI_def)

lemma time_calculateEnvironment_with:
  "autoPlay s \<Longrightarrow>
     time (calculateEnvironment_with sinf p s)
       = (if time s + 0.02 \<ge> 24 then 0 else time s + 0.02)"
  by (simp add: calculateEnvironment_with_def Let_def)

lemma light_calculateEnvironment_with:
  assumes "autoPlay s"
  shows "light (calculateEnvironment_with sinf p s) =
     (if 6 \<le> time (calculateEnvironment_with sinf p s)
         \<and> time (calculateEnvironment_with sinf p s) \<le> 18
      then max 0 (sinf (map_p5 (time (calculateEnvironment_with sinf p s)) 6 18 0 p) * 100)
      else 0)"
  using assms by (auto simp add: calculateEnvironment_with_def Let_def max_def)

lemma map_p5_window_with: "map_p5 t 6 18 0 p = (t - 6) / (18 - 6) * p"
  by (simp add: map_p5_def)

text \<open>
  Claim C6, as stated: the light is \<open>0\<close> at time \<open>18\<close>. There the source stores
  \<^verbatim>\<open>sin(PI) * 100\<close>; \<^verbatim>\<open>PI\<close> is a double below \<open>\<pi>\<close>, its sine is positive, and the clamp
  changes negative values only. From time \<open>17.98\<close> a frame reaches time \<open>18\<close> and stores
  a light that is not \<open>0\<close>.
\<close>

theorem light_at_18_counterexample:
  "time (calculateEnvironment_with sin_double PI_double (state_init\<lparr>time := 17.98\<rparr>)) = 18
   \<and> light (calculateEnvironment_with sin_double PI_double (state_init\<lparr>time := 17.98\<rparr>)) \<noteq> 0"
proof -
  let ?s = "state_init\<lparr>time := 17.98\<rparr>"
  have a: "autoPlay ?s" by (simp add: state_init_def)
  have t: "time (calculateEnvironment_with sin_double PI_double ?s) = 18"
    by (simp add: time_calculateEnvironment_with state_init_def)
  have "light (calculateEnvironment_with sin_double PI_double ?s)
      = max 0 (sin_double PI_double * 100)"
    using light_calculateEnvironment_with [OF a, of sin_double PI_double]
    unfolding t by (simp add: map_p5_window_with)
  then have "0 < light (calculateEnvironment_with sin_double PI_double ?s)"
    using sin_double_PI_double_pos by simp
  then show ?thesis using t by simp
qed

text \<open>
  Claim C6, amended. With \<open>autoPlay\<close> true the light that \<open>calculateEnvironment\<close> stores
  is \<open>0\<close> when the new time is outside the window from \<open>6\<close> to \<open>18\<close>; inside the window
  it is \<open>100\<close> times the library's sine of the time mapped linearly from \<open>[6, 18]\<close> onto
  \<open>[0, PI]\<close>, replaced by \<open>0\<close> when negative. With a sine that is \<open>0\<close> at \<open>0\<close> and \<open>1\<close> at
  \<open>PI / 2\<close>, as on doubles, the light is \<open>0\<close> at time \<open>6\<close> and \<open>100\<close> at time \<open>12\<close>; at time
  \<open>18\<close> it is \<open>100\<close> times the sine of \<open>PI\<close>, which is not \<open>0\<close> when that sine is
  positive. The light is never negative.
\<close>

theorem light_from_time_with:
  assumes "autoPlay s" and "sinf 0 = 0" and "sinf (p / 2) = 1"
  shows "(time (calculateEnvironment_with sinf p s) < 6
            \<or> 18 < time (calculateEnvironment_with sinf p s)
            \<longrightarrow> light (calculateEnvironment_with sinf p s) = 0)
       \<and> (6 \<le> time (calculateEnvironment_with sinf p s)
            \<and> time (calculateEnvironment_with sinf p s) \<le> 18
            \<longrightarrow> light (calculateEnvironment_with sinf p s)
                = max 0 (100 * sinf ((time (calculateEnvironment_with sinf p s) - 6)
                                      / (18 - 6) * p)))
       \<and> (time (calculateEnvironment_with sinf p s) = 12
            \<longrightarrow> light (calculateEnvironment_with sinf p s) = 100)
       \<and> (time (calculateEnvironment_with sinf p s) = 6
            \<longrightarrow> light (calculateEnvironment_with sinf p s) = 0)
       \<and> (time (calculateEnvironment_with sinf p s) = 18
            \<longrightarrow> light (calculateEnvironment_with sinf p s) = max 0 (100 * sinf p))
       \<and> (time (calculateEnvironment_with sinf p s) = 18 \<and> 0 < sinf p
            \<longrightarrow> light (calculateEnvironment_with sinf p s) \<noteq> 0)
       \<and> 0 \<le> light (calculateEnvironment_with sinf p s)"
proof -
  let ?t = "time (calculateEnvironment_with sinf p s)"
  let ?l = "light (calculateEnvironment_with sinf p s)"
  note l = light_calculateEnvironment_with [OF assms(1), of sinf p]
  have a: "?t < 6 \<or> 18 < ?t \<longrightarrow> ?l = 0" using l by auto
  have b: "6 \<le> ?t \<and> ?t \<le> 18 \<longrightarrow> ?l = max 0 (100 * sinf ((?t - 6) / (18 - 6) * p))"
    using l by (simp add: map_p5_window_with mult.commute)
  have c: "?t = 12 \<longrightarrow> ?l = 100" using l assms(3) by (simp add: map_p5_window_with)
  have d: "?t = 6 \<longrightarrow> ?l = 0" using l assms(2) by (simp add: map_p5_window_with)
  have e: "?t = 18 \<longrightarrow> ?l = max 0 (100 * sinf p)"
    using l by (simp add: map_p5_window_with mult.commute)
  have f: "?t = 18 \<and> 0 < sinf p \<longrightarrow> ?l \<noteq> 0" using e by (auto simp add: max_def)
  have g: "0 \<le> ?l" using l by (simp split: if_splits)
  from a b c d e f g show ?thesis by blast
qed

theorem light_from_time_with_witness:
  "autoPlay (state_init\<lparr>time := 11.98\<rparr>)
   \<and> sin_double 0 = 0 \<and> sin_double (PI_double / 2) = 1 \<and> 0 < sin_double PI_double
   \<and> time (calculateEnvironment_with sin_double PI_double (state_init\<lparr>time := 11.98\<rparr>)) = 12
   \<and> light (calculateEnvironment_with sin_double PI_double (state_init\<lparr>time := 11.98\<rparr>)) = 100
   \<and> time (calculateEnvironment_with sin_double PI_double (state_init\<lparr>time := 5.98\<rparr>)) = 6
   \<and> light (calculateEnvironment_with sin_double PI_double (state_init\<lparr>time := 5.98\<rparr>)) = 0
   \<and> time (calculateEnvironment_with sin_double PI_double (state_init\<lparr>time := 17.98\<rparr>)) = 18
   \<and> light (calculateEnvironment_with sin_double PI_double (state_init\<lparr>time := 17.98\<rparr>)) \<noteq> 0
   \<and> time (calculateEnvironment_with sin_double PI_double (state_init\<lparr>time := 2\<rparr>)) < 6
   \<and> light (calculateEnvironment_with sin_double PI_double (state_init\<lparr>time := 2\<rparr>)) = 0
   \<and> 18 < time (calculateEnvironment_with sin_double PI_double (state_init\<lparr>time := 20\<rparr>))
   \<and> light (calculateEnvironment_with sin_double PI_double (state_init\<lparr>time := 20\<rparr>)) = 0"
proof -
  have a: "autoPlay (state_init\<lparr>time := x\<rparr>)" for x by (simp add: state_init_def)
  have t: "time (calculateEnvironment_with sin_double PI_double (state_init\<lparr>time := 11.98\<rparr>)) = 12"
    "time (calculateEnvironment_with sin_double PI_double (state_init\<lparr>time := 5.98\<rparr>)) = 6"
    "time (calculateEnvironment_with sin_double PI_double (state_init\<lparr>time := 17.98\<rparr>)) = 18"
    "time (calculateEnvironment_with sin_double PI_double (state_init\<lparr>time := 2\<rparr>)) = 2.02"
    "time (calculateEnvironment_with sin_double PI_double (state_init\<lparr>time := 20\<rparr>)) = 20.02"
    by (simp_all add: time_calculateEnvironment_with state_init_def)
  note w = light_from_time_with [OF a sin_double_0 sin_double_half_PI_double]
  show ?thesis
    using t w [of "11.98"] w [of "5.98"] w [of "17.98"] w [of 2] w [of 20] a [of "11.98"]
      sin_double_0 sin_double_half_PI_double sin_double_PI_double_pos
    by simp
qed

subsection \<open>The temperature effect near the optimum\<close>

lemma tempEffect_with_exact: "tempEffect_with exp = tempEffect"
  by (rule ext) (simp add: tempEffect_with_def tempEffect_def)

lemma tempEffect_with_exp_double_frame_300:
  "tempEffect_with exp_double (state_init\<lparr>temp := 25.000000000000288\<rparr>) = 100"
proof -
  let ?s = "state_init\<lparr>temp := 25.000000000000288\<rparr>"
  have t: "temp ?s - 25 = 288 / 10 ^ 15" by (simp add: state_init_def)
  have "exp_double (- ((temp ?s - 25)\<^sup>2 / 200)) = 1"
    unfolding t by (rule exp_double_near_0) (simp_all add: power_divide)
  then show ?thesis
    by (simp add: tempEffect_with_def Let_def tempDiff_def OPTIMAL_TEMP_def)
qed

text \<open>
  Claim C7, as stated: the temperature effect is \<open>100\<close> only at temperature \<open>25\<close>. At
  temperature \<open>25.000000000000288\<close> the argument of \<^verbatim>\<open>Math.exp\<close> is about \<open>- 4 / 10 ^ 28\<close>,
  the exponential rounds to the double \<open>1\<close>, and the effect is \<open>100\<close>.
\<close>

theorem tempEffect_iff_counterexample:
  "temp (state_init\<lparr>temp := 25.000000000000288\<rparr>) \<noteq> 25
   \<and> tempEffect_with exp_double (state_init\<lparr>temp := 25.000000000000288\<rparr>) = 100"
  using tempEffect_with_exp_double_frame_300 by (simp add: state_init_def)

text \<open>
  Claim C7, amended. The temperature effect that \<open>calculateRate\<close> computes is \<open>100\<close>
  times \<^verbatim>\<open>Math.exp\<close> of \<open>- (temp - 25)\<^sup>2 / 200\<close>, replaced by \<open>0\<close> when that value is
  below \<open>1\<close>. For an exponential that is \<open>1\<close> at \<open>0\<close>, at most \<open>1\<close> on the negative numbers
  and below \<open>1\<close> from \<open>- 1 / 2 ^ 53\<close> downwards, as on doubles, the effect is at most \<open>100\<close>
  for every temperature, it is \<open>100\<close> at temperature \<open>25\<close>, and it is \<open>100\<close> only for
  temperatures less than \<open>1.5 / 10 ^ 7\<close> away from \<open>25\<close>.
\<close>

theorem tempEffect_with_library:
  assumes "expf 0 = 1"
    and "\<And>x. x \<le> 0 \<Longrightarrow> expf x \<le> 1"
    and "\<And>x. x \<le> - (1 / 2 ^ 53) \<Longrightarrow> expf x < 1"
  shows "tempEffect_with expf s =
           (if 100 * expf (- ((temp s - 25)\<^sup>2 / 200)) < 1 then 0
            else 100 * expf (- ((temp s - 25)\<^sup>2 / 200)))
       \<and> tempEffect_with expf s \<le> 100
       \<and> (temp s = 25 \<longrightarrow> tempEffect_with expf s = 100)
       \<and> (tempEffect_with expf s = 100 \<longrightarrow> \<bar>temp s - 25\<bar> < 15 / 10 ^ 8)"
proof -
  let ?y = "- ((temp s - 25)\<^sup>2 / 200)"
  have y: "?y \<le> 0" by simp
  have a: "tempEffect_with expf s = (if 100 * expf ?y < 1 then 0 else 100 * expf ?y)"
    by (simp add: tempEffect_with_def Let_def tempDiff_def OPTIMAL_TEMP_def)
  have "expf ?y \<le> 1" using y by (rule assms(2))
  then have b: "tempEffect_with expf s \<le> 100" unfolding a by simp
  have c: "temp s = 25 \<longrightarrow> tempEffect_with expf s = 100"
    unfolding a using assms(1) by simp
  have d: "tempEffect_with expf s = 100 \<longrightarrow> \<bar>temp s - 25\<bar> < 15 / 10 ^ 8"
  proof
    assume "tempEffect_with expf s = 100"
    then have "expf ?y = 1" unfolding a by (simp split: if_splits)
    then have "\<not> ?y \<le> - (1 / 2 ^ 53)" using assms(3) [of ?y] by auto
    then have lt: "(temp s - 25)\<^sup>2 < 200 / 2 ^ 53" by simp
    show "\<bar>temp s - 25\<bar> < 15 / 10 ^ 8"
    proof (rule ccontr)
      assume "\<not> \<bar>temp s - 25\<bar> < 15 / 10 ^ 8"
      then have "15 / 10 ^ 8 \<le> \<bar>temp s - 25\<bar>" by simp
      then have "(15 / 10 ^ 8)\<^sup>2 \<le> \<bar>temp s - 25\<bar>\<^sup>2" by (intro power_mono) simp_all
      then have "(15 / 10 ^ 8)\<^sup>2 \<le> (temp s - 25)\<^sup>2" by simp
      moreover have "(200 / 2 ^ 53 :: real) < (15 / 10 ^ 8)\<^sup>2" by (simp add: power_divide)
      ultimately show False using lt by linarith
    qed
  qed
  from a b c d show ?thesis by blast
qed

theorem tempEffect_with_library_witness:
  "exp_double 0 = 1
   \<and> temp state_init = 25 \<and> tempEffect_with exp_double state_init = 100
   \<and> tempEffect_with exp_double (state_init\<lparr>temp := 25.000000000000288\<rparr>) = 100
   \<and> \<bar>temp (state_init\<lparr>temp := 25.000000000000288\<rparr>) - 25\<bar> < 15 / 10 ^ 8
   \<and> tempEffect_with exp_double (state_init\<lparr>temp := 40\<rparr>) \<le> 100"
proof -
  note w = tempEffect_with_library [of exp_double, OF exp_double_0 exp_double_le_1 exp_double_less_1]
  show ?thesis
    using w [of state_init] w [of "state_init\<lparr>temp := 25.000000000000288\<rparr>"]
      w [of "state_init\<lparr>temp := 40\<rparr>"] exp_double_0
      tempEffect_with_exp_double_frame_300
    by (simp add: state_init_def)
qed

end
